theory Spec2Isabelle
  imports Complex_Main
begin

section \<open>Keyboard control of a simulated robot (\<^verbatim>\<open>social_bot/keybo_control.py\<close>)\<close>

text \<open>
  The class \<^verbatim>\<open>KeyboardControl\<close> keeps two control scalars (speed, turning), a gripper
  position, a gripper flag, two step sizes and two decay factors. Each call of
  \<^verbatim>\<open>get_agent_actions\<close> samples at most one key, decays speed and turning, applies the
  key and projects the state into a list of joint commands for the given agent type.

  Numbers: Python's floats are modelled by exact rationals (\<^typ>\<open>rat\<close>); rounding,
  overflow to infinity and underflow to zero are outside this model. The integer literals
  of the source (\<^verbatim>\<open>0\<close>) and its float literals (\<^verbatim>\<open>0.5\<close>) become numbers of the one type,
  as Python's \<^verbatim>\<open>==\<close> does not tell \<^verbatim>\<open>0\<close> from \<^verbatim>\<open>0.0\<close>.

  Effects: the attributes of the object are a record that every operation takes and
  returns; the key that \<^verbatim>\<open>_get_key\<close> reads from the terminal is an argument of the call
  (\<^verbatim>\<open>None\<close> when no key is pending); the lines written through \<^verbatim>\<open>logging.info\<close> are
  returned with the result; an \<^verbatim>\<open>IndexError\<close> of a list access is a value.
\<close>

subsection \<open>Data\<close>

datatype py_error = IndexError

datatype log_record = Info string

record KeyboardControl =
  speed :: rat
  turning :: rat
  gripper_pos :: "rat list"
  gripper_open :: bool
  wheel_step :: rat
  gripper_step :: rat
  speed_decay :: rat
  turning_decay :: rat

text \<open>What one call of \<^verbatim>\<open>get_agent_actions\<close> leaves behind: the value returned (or the
  exception raised), the log lines emitted, and the attributes of the object afterwards.\<close>

record call_result =
  returned :: "py_error + rat list"
  logged :: "log_record list"
  state_after :: KeyboardControl

subsection \<open>Construction and reset (lines 32-46)\<close>

definition init :: KeyboardControl where
  "init = \<lparr>speed = 0, turning = 0, gripper_pos = [0, 0, 0], gripper_open = True,
           wheel_step = 0.5, gripper_step = 0.02, speed_decay = 0.9, turning_decay = 0.5\<rparr>"

definition reset :: "KeyboardControl \<Rightarrow> KeyboardControl" where
  "reset s = s\<lparr>gripper_pos := [0, 0, 0], gripper_open := True, speed := 0, turning := 0\<rparr>"

subsection \<open>List accesses\<close>

text \<open>\<^verbatim>\<open>xs[i]\<close> for a literal index \<open>i \<ge> 0\<close>: Python raises \<^verbatim>\<open>IndexError\<close> out of range.\<close>

definition getitem :: "rat list \<Rightarrow> nat \<Rightarrow> py_error + rat" where
  "getitem xs i = (if i < length xs then Inr (xs ! i) else Inl IndexError)"

text \<open>\<^verbatim>\<open>xs[i] -= d\<close> and \<^verbatim>\<open>xs[i] += d\<close>: read, then write, the same slot.\<close>

definition isub_item :: "rat list \<Rightarrow> nat \<Rightarrow> rat \<Rightarrow> py_error + rat list" where
  "isub_item xs i d = (if i < length xs then Inr (xs[i := xs ! i - d]) else Inl IndexError)"

definition iadd_item :: "rat list \<Rightarrow> nat \<Rightarrow> rat \<Rightarrow> py_error + rat list" where
  "iadd_item xs i d = (if i < length xs then Inr (xs[i := xs ! i + d]) else Inl IndexError)"

definition set_gripper_pos :: "KeyboardControl \<Rightarrow> py_error + rat list \<Rightarrow> py_error + KeyboardControl" where
  "set_gripper_pos s r = (case r of Inl e \<Rightarrow> Inl e | Inr g \<Rightarrow> Inr (s\<lparr>gripper_pos := g\<rparr>))"

subsection \<open>Projections (lines 102-158)\<close>

definition to_diff_drive_action :: "KeyboardControl \<Rightarrow> rat list" where
  "to_diff_drive_action s =
     (let left_wheel_joint = speed s + turning s;
          right_wheel_joint = speed s - turning s
      in [left_wheel_joint, right_wheel_joint])"

definition to_youbot_action :: "KeyboardControl \<Rightarrow> py_error + rat list" where
  "to_youbot_action s =
     (let wheel_joint_bl = speed s + turning s;
          wheel_joint_br = speed s - turning s;
          wheel_joint_fl = speed s + turning s;
          wheel_joint_fr = speed s - turning s;
          gripper_joint = (if gripper_open s then 0.5 else - 0.5)
      in case getitem (gripper_pos s) 1 of
           Inl e \<Rightarrow> Inl e
         | Inr g1 \<Rightarrow>
            (case getitem (gripper_pos s) 0 of
               Inl e \<Rightarrow> Inl e
             | Inr g0 \<Rightarrow>
                 Inr [0, 0.5 + g1, 0.3, g0 - 0.1, 0.2, 0,
                      0, gripper_joint, gripper_joint,
                      wheel_joint_bl, wheel_joint_br, wheel_joint_fl, wheel_joint_fr]))"

definition to_pr2_action :: "KeyboardControl \<Rightarrow> rat list" where
  "to_pr2_action s =
     (let wheel_joint_bl = speed s + turning s;
          wheel_joint_br = speed s - turning s;
          wheel_joint_fl = speed s + turning s;
          wheel_joint_fr = speed s - turning s
      in [wheel_joint_fl, wheel_joint_fl, wheel_joint_fr, wheel_joint_fr,
          wheel_joint_bl, wheel_joint_bl, wheel_joint_br, wheel_joint_br])"

definition convert_to_agent_action ::
    "string \<Rightarrow> KeyboardControl \<Rightarrow> (py_error + rat list) \<times> log_record list" where
  "convert_to_agent_action agent_type s =
     (if agent_type = ''pioneer2dx_noplugin'' \<or> agent_type = ''turtlebot''
        then (Inr (to_diff_drive_action s), [])
      else if agent_type = ''youbot_noplugin'' then (to_youbot_action s, [])
      else if agent_type = ''pr2_noplugin'' then (Inr (to_pr2_action s), [])
      else (Inr [], [Info (''agent type not supported yet: '' @ agent_type)]))"

subsection \<open>One control tick (lines 61-100)\<close>

text \<open>Lines 69-70: the decay, applied before the key is looked at.\<close>

definition decay :: "KeyboardControl \<Rightarrow> KeyboardControl" where
  "decay s =
     (let s1 = s\<lparr>speed := speed s * speed_decay s\<rparr>
      in s1\<lparr>turning := turning s1 * turning_decay s1\<rparr>)"

text \<open>Lines 72-98: the \<^verbatim>\<open>if\<close>/\<^verbatim>\<open>elif\<close> chain on the key, in the source's order. A key that
  matches no branch, and no key at all, change nothing.\<close>

definition key_effect :: "string option \<Rightarrow> KeyboardControl \<Rightarrow> py_error + KeyboardControl" where
  "key_effect key s =
     (if key = Some ''w'' then
        Inr (s\<lparr>speed := (if speed s < - 0.01 then 0 else speed s + wheel_step s)\<rparr>)
      else if key = Some ''s'' then
        Inr (s\<lparr>speed := (if speed s > 0.01 then 0 else speed s - wheel_step s)\<rparr>)
      else if key = Some ''a'' then
        Inr (s\<lparr>turning := (if turning s > 0.01 then 0 else turning s - wheel_step s)\<rparr>)
      else if key = Some ''d'' then
        Inr (s\<lparr>turning := (if turning s < - 0.01 then 0 else turning s + wheel_step s)\<rparr>)
      else if key = Some ''i'' then
        set_gripper_pos s (isub_item (gripper_pos s) 0 (gripper_step s))
      else if key = Some ''k'' then
        set_gripper_pos s (iadd_item (gripper_pos s) 0 (gripper_step s))
      else if key = Some ''j'' then
        set_gripper_pos s (isub_item (gripper_pos s) 1 (gripper_step s))
      else if key = Some ''l'' then
        set_gripper_pos s (iadd_item (gripper_pos s) 1 (gripper_step s))
      else if key = Some ''e'' then
        Inr (s\<lparr>gripper_open := \<not> gripper_open s\<rparr>)
      else if key = Some ''+'' then
        Inr (s\<lparr>wheel_step := wheel_step s * 1.5, gripper_step := gripper_step s * 1.5\<rparr>)
      else if key = Some ''-'' then
        Inr (s\<lparr>wheel_step := wheel_step s * 0.7, gripper_step := gripper_step s * 0.7\<rparr>)
      else Inr s)"

text \<open>The whole call. \<open>key\<close> is what \<^verbatim>\<open>self._get_key()\<close> returned at line 68. An exception
  leaves the attributes as they were when it was raised.\<close>

definition get_agent_actions :: "string option \<Rightarrow> string \<Rightarrow> KeyboardControl \<Rightarrow> call_result" where
  "get_agent_actions key agent_type s =
     (let s1 = decay s
      in case key_effect key s1 of
           Inl e \<Rightarrow> \<lparr>returned = Inl e, logged = [], state_after = s1\<rparr>
         | Inr s2 \<Rightarrow>
             (case convert_to_agent_action agent_type s2 of
                (r, lg) \<Rightarrow> \<lparr>returned = r, logged = lg, state_after = s2\<rparr>))"

subsection \<open>Sequences of calls and reachable states\<close>

text \<open>The caller's loop (\<^verbatim>\<open>main\<close>, lines 185-186) calls \<^verbatim>\<open>get_agent_actions\<close> once per
  step; \<open>run_calls\<close> does so for a list of sampled keys and agent types and gives the
  attributes after the last call.\<close>

fun run_calls :: "(string option \<times> string) list \<Rightarrow> KeyboardControl \<Rightarrow> KeyboardControl" where
  "run_calls [] s = s"
| "run_calls ((key, agent_type) # cs) s =
     run_calls cs (state_after (get_agent_actions key agent_type s))"

text \<open>The states an object of the class can be in: constructed, then any number of
  \<^verbatim>\<open>reset\<close> and \<^verbatim>\<open>get_agent_actions\<close> calls.\<close>

inductive reachable :: "KeyboardControl \<Rightarrow> bool" where
  reachable_init: "reachable init"
| reachable_reset: "reachable s \<Longrightarrow> reachable (reset s)"
| reachable_call: "reachable s \<Longrightarrow> reachable (state_after (get_agent_actions key agent_type s))"

section \<open>Properties\<close>

subsection \<open>What one call does to each attribute\<close>

lemmas ga_defs = get_agent_actions_def key_effect_def decay_def set_gripper_pos_def
  isub_item_def iadd_item_def convert_to_agent_action_def Let_def

lemma speed_after:
  "speed (state_after (get_agent_actions key agent_type s)) =
     (if key = Some ''w'' then
        (if speed s * speed_decay s < - 0.01 then 0 else speed s * speed_decay s + wheel_step s)
      else if key = Some ''s'' then
        (if speed s * speed_decay s > 0.01 then 0 else speed s * speed_decay s - wheel_step s)
      else speed s * speed_decay s)"
  by (simp add: ga_defs split: prod.splits)

lemma turning_after:
  "turning (state_after (get_agent_actions key agent_type s)) =
     (if key = Some ''a'' then
        (if turning s * turning_decay s > 0.01 then 0 else turning s * turning_decay s - wheel_step s)
      else if key = Some ''d'' then
        (if turning s * turning_decay s < - 0.01 then 0 else turning s * turning_decay s + wheel_step s)
      else turning s * turning_decay s)"
  by (simp add: ga_defs split: prod.splits)

lemma steps_after:
  "wheel_step (state_after (get_agent_actions key agent_type s)) =
     (if key = Some ''+'' then wheel_step s * 1.5
      else if key = Some ''-'' then wheel_step s * 0.7 else wheel_step s)"
  "gripper_step (state_after (get_agent_actions key agent_type s)) =
     (if key = Some ''+'' then gripper_step s * 1.5
      else if key = Some ''-'' then gripper_step s * 0.7 else gripper_step s)"
  by (simp_all add: ga_defs split: prod.splits)

lemma decays_after:
  "speed_decay (state_after (get_agent_actions key agent_type s)) = speed_decay s"
  "turning_decay (state_after (get_agent_actions key agent_type s)) = turning_decay s"
  by (simp_all add: ga_defs split: prod.splits)

lemma gripper_open_after:
  "gripper_open (state_after (get_agent_actions key agent_type s)) =
     (if key = Some ''e'' then \<not> gripper_open s else gripper_open s)"
  by (simp add: ga_defs split: prod.splits)

lemma gripper_pos_after:
  "length (gripper_pos s) = 3 \<Longrightarrow>
   gripper_pos (state_after (get_agent_actions key agent_type s)) =
     (if key = Some ''i'' then (gripper_pos s)[0 := gripper_pos s ! 0 - gripper_step s]
      else if key = Some ''k'' then (gripper_pos s)[0 := gripper_pos s ! 0 + gripper_step s]
      else if key = Some ''j'' then (gripper_pos s)[1 := gripper_pos s ! 1 - gripper_step s]
      else if key = Some ''l'' then (gripper_pos s)[1 := gripper_pos s ! 1 + gripper_step s]
      else gripper_pos s)"
  by (simp add: ga_defs split: prod.splits)

lemma key_effect_ok:
  "length (gripper_pos s) = 3 \<Longrightarrow> \<exists>s2. key_effect key (decay s) = Inr s2 \<and> length (gripper_pos s2) = 3"
  by (simp add: ga_defs)

lemma returned_ok:
  "length (gripper_pos s) = 3 \<Longrightarrow>
   returned (get_agent_actions key agent_type s) =
     fst (convert_to_agent_action agent_type (state_after (get_agent_actions key agent_type s)))"
  "length (gripper_pos s) = 3 \<Longrightarrow>
   logged (get_agent_actions key agent_type s) =
     snd (convert_to_agent_action agent_type (state_after (get_agent_actions key agent_type s)))"
   by (simp_all add: ga_defs split: prod.splits)

subsection \<open>Invariants of reachable states\<close>

lemma reachable_inv:
  "reachable s \<Longrightarrow>
     length (gripper_pos s) = 3 \<and> gripper_pos s ! 2 = 0 \<and>
     speed_decay s = 0.9 \<and> turning_decay s = 0.5"
proof (induction rule: reachable.induct)
  case reachable_init
  show ?case by (simp add: init_def)
next
  case (reachable_reset s)
  then show ?case by (simp add: reset_def)
next
  case (reachable_call s key agent_type)
  then show ?case by (simp add: gripper_pos_after decays_after)
qed

lemma returned_reachable:
  "reachable s \<Longrightarrow>
   returned (get_agent_actions key agent_type s) =
     fst (convert_to_agent_action agent_type (state_after (get_agent_actions key agent_type s)))"
  using reachable_inv [of s] by (simp add: returned_ok)

lemma logged_reachable:
  "reachable s \<Longrightarrow>
   logged (get_agent_actions key agent_type s) =
     snd (convert_to_agent_action agent_type (state_after (get_agent_actions key agent_type s)))"
  using reachable_inv [of s] by (simp add: returned_ok)

lemma to_youbot_action_ok:
  "length (gripper_pos s) = 3 \<Longrightarrow>
   to_youbot_action s =
     Inr [0, 0.5 + gripper_pos s ! 1, 0.3, gripper_pos s ! 0 - 0.1, 0.2, 0,
          0, (if gripper_open s then 0.5 else - 0.5), (if gripper_open s then 0.5 else - 0.5),
          speed s + turning s, speed s - turning s, speed s + turning s, speed s - turning s]"
  by (simp add: to_youbot_action_def getitem_def Let_def)

lemma run_calls_reachable: "reachable s \<Longrightarrow> reachable (run_calls cs s)"
proof (induction cs arbitrary: s)
  case Nil
  then show ?case by simp
next
  case (Cons c cs)
  obtain key agent_type where c: "c = (key, agent_type)" by (cases c)
  from Cons.prems have "reachable (state_after (get_agent_actions key agent_type s))"
    by (rule reachable_call)
  then show ?case unfolding c by (simp add: Cons.IH)
qed

lemma run_no_key:
  "speed (run_calls (map (Pair None) ts) s) = speed s * speed_decay s ^ length ts \<and>
   turning (run_calls (map (Pair None) ts) s) = turning s * turning_decay s ^ length ts"
  by (induction ts arbitrary: s) (simp_all add: speed_after turning_after decays_after mult.assoc)

subsection \<open>Multiplying by a factor between 0 and 1\<close>

lemma shrink:
  fixes x c :: rat
  assumes "x \<noteq> 0" "0 < c" "c < 1"
  shows "x * c \<noteq> 0" "sgn (x * c) = sgn x" "\<bar>x * c\<bar> < \<bar>x\<bar>"
proof -
  show "x * c \<noteq> 0" using assms by simp
  show "sgn (x * c) = sgn x" using assms by (simp add: sgn_mult)
  have "\<bar>x * c\<bar> = \<bar>x\<bar> * c" using assms by (simp add: abs_mult)
  also have "\<dots> < \<bar>x\<bar> * 1" using assms by (intro mult_strict_left_mono) simp_all
  finally show "\<bar>x * c\<bar> < \<bar>x\<bar>" by simp
qed

lemma shrink_pow:
  fixes x c :: rat
  assumes "x \<noteq> 0" "0 < c" "c < 1"
  shows "x * c ^ n \<noteq> 0" "sgn (x * c ^ n) = sgn x" "n \<noteq> 0 \<Longrightarrow> \<bar>x * c ^ n\<bar> < \<bar>x\<bar>"
proof -
  show "x * c ^ n \<noteq> 0" using assms by simp
  show "sgn (x * c ^ n) = sgn x" using assms by (simp add: sgn_mult)
  assume "n \<noteq> 0"
  then have "c ^ n < 1" using assms by (simp add: power_less_one_iff)
  moreover have "0 < c ^ n" using assms by simp
  ultimately show "\<bar>x * c ^ n\<bar> < \<bar>x\<bar>" using shrink(3) [OF assms(1)] by blast
qed

lemma run_calls_steps:
  "\<forall>c \<in> set cs. fst c \<noteq> Some ''+'' \<and> fst c \<noteq> Some ''-'' \<Longrightarrow>
   wheel_step (run_calls cs s) = wheel_step s \<and> gripper_step (run_calls cs s) = gripper_step s"
proof (induction cs arbitrary: s)
  case Nil
  show ?case by simp
next
  case (Cons c cs)
  obtain key agent_type where c: "c = (key, agent_type)" by (cases c)
  from Cons.prems have k: "key \<noteq> Some ''+''" "key \<noteq> Some ''-''" and
    rest: "\<forall>c \<in> set cs. fst c \<noteq> Some ''+'' \<and> fst c \<noteq> Some ''-''"
    by (simp_all add: c)
  show ?case unfolding c using Cons.IH [OF rest] k by (simp add: steps_after)
qed

lemma state_after_eq:
  "state_after (get_agent_actions key agent_type s) =
     (case key_effect key (decay s) of Inl e \<Rightarrow> decay s | Inr s2 \<Rightarrow> s2)"
  by (simp add: get_agent_actions_def Let_def split: sum.split prod.split)

lemma state_after_agent_type:
  "state_after (get_agent_actions key agent_type s) = state_after (get_agent_actions key agent_type' s)"
  by (simp only: state_after_eq)

lemma convert_ignores_third:
  "convert_to_agent_action agent_type (s\<lparr>gripper_pos := (gripper_pos s)[2 := v]\<rparr>)
     = convert_to_agent_action agent_type s"
  by (simp add: convert_to_agent_action_def to_diff_drive_action_def to_pr2_action_def
      to_youbot_action_def getitem_def)

subsection \<open>Claims\<close>

text \<open>
  Claim C1 (as the code has it). The key \<^verbatim>\<open>w\<close> sets the speed to 0 only when the decayed speed
  is below \<open>-0.01\<close>. In a state with speed \<open>-0.005\<close> and the constructor's decay factor
  0.9 the decayed speed is \<open>-0.0045\<close>, which is not below \<open>-0.01\<close>: the call sets the
  speed to the decayed speed plus \<^verbatim>\<open>wheel_step\<close>.
\<close>

theorem zero_crossing_w_small_speed:
  assumes "speed s = - 0.005" and "speed_decay s = 0.9"
  shows "speed (state_after (get_agent_actions (Some ''w'') agent_type s))
           = speed s * speed_decay s + wheel_step s \<and>
         speed (state_after (get_agent_actions (Some ''w'') agent_type s))
           = - 0.0045 + wheel_step s"
  using assms by (simp add: speed_after)

theorem zero_crossing_w_small_speed_witness:
  "speed (state_after (get_agent_actions (Some ''w'') ''youbot_noplugin'' (init\<lparr>speed := - 0.005\<rparr>)))
     = - 0.0045 + 0.5"
  using zero_crossing_w_small_speed [of "init\<lparr>speed := - 0.005\<rparr>" "''youbot_noplugin''"]
  by (simp add: init_def)

text \<open>
  The statement that such a call yields speed 0 fails on a constructed object whose speed is
  \<open>-0.005\<close>: the speed after the call is \<open>-0.0045 + 0.5 = 0.4955\<close>.
\<close>

theorem zero_crossing_w_counterexample:
  "speed (init\<lparr>speed := - 0.005\<rparr>) = - 0.005 \<and>
   speed (state_after (get_agent_actions (Some ''w'') ''turtlebot'' (init\<lparr>speed := - 0.005\<rparr>))) = 0.4955 \<and>
   speed (state_after (get_agent_actions (Some ''w'') ''turtlebot'' (init\<lparr>speed := - 0.005\<rparr>))) \<noteq> 0"
  by (simp add: speed_after init_def)

text \<open>
  Claim C2. From a freshly constructed object (\<^verbatim>\<open>wheel_step\<close> 0.5, speed 0, turning 0), a call
  for a diff-drive agent type that samples \<^verbatim>\<open>w\<close> leaves speed 0.5 and returns \<open>[0.5, 0.5]\<close>;
  the next call, with no key pending, leaves speed 0.45 and returns \<open>[0.45, 0.45]\<close>. Both
  diff-drive agent types are covered.
\<close>

theorem end_to_end_scenario:
  "wheel_step init = 0.5 \<and> speed init = 0 \<and> turning init = 0 \<and>
   (let r1 = get_agent_actions (Some ''w'') ''pioneer2dx_noplugin'' init;
        r2 = get_agent_actions None ''pioneer2dx_noplugin'' (state_after r1)
    in speed (state_after r1) = 0.5 \<and> returned r1 = Inr [0.5, 0.5] \<and>
       speed (state_after r2) = 0.45 \<and> returned r2 = Inr [0.45, 0.45]) \<and>
   (let r1 = get_agent_actions (Some ''w'') ''turtlebot'' init;
        r2 = get_agent_actions None ''turtlebot'' (state_after r1)
    in speed (state_after r1) = 0.5 \<and> returned r1 = Inr [0.5, 0.5] \<and>
       speed (state_after r2) = 0.45 \<and> returned r2 = Inr [0.45, 0.45])"
  by (simp add: init_def ga_defs to_diff_drive_action_def)

text \<open>
  Claim C3. In every reachable state and for every key, the call returns a list (no
  exception) whose length depends on the agent type only: 2 for the two diff-drive types,
  13 for youbot, 8 for pr2.
\<close>

theorem action_length_constant:
  assumes "reachable s"
  shows "(\<exists>a. returned (get_agent_actions key ''pioneer2dx_noplugin'' s) = Inr a \<and> length a = 2) \<and>
         (\<exists>a. returned (get_agent_actions key ''turtlebot'' s) = Inr a \<and> length a = 2) \<and>
         (\<exists>a. returned (get_agent_actions key ''youbot_noplugin'' s) = Inr a \<and> length a = 13) \<and>
         (\<exists>a. returned (get_agent_actions key ''pr2_noplugin'' s) = Inr a \<and> length a = 8)"
proof -
  have len: "length (gripper_pos (state_after (get_agent_actions key ''youbot_noplugin'' s))) = 3"
    using reachable_inv [OF reachable_call [OF assms]] by simp
  show ?thesis
    by (simp add: returned_reachable [OF assms] convert_to_agent_action_def
        to_diff_drive_action_def to_pr2_action_def to_youbot_action_ok [OF len] Let_def)
qed

theorem action_length_constant_witness:
  "(\<exists>a. returned (get_agent_actions (Some ''e'') ''pioneer2dx_noplugin'' init) = Inr a \<and> length a = 2) \<and>
   (\<exists>a. returned (get_agent_actions (Some ''e'') ''turtlebot'' init) = Inr a \<and> length a = 2) \<and>
   (\<exists>a. returned (get_agent_actions (Some ''e'') ''youbot_noplugin'' init) = Inr a \<and> length a = 13) \<and>
   (\<exists>a. returned (get_agent_actions (Some ''e'') ''pr2_noplugin'' init) = Inr a \<and> length a = 8)"
  using action_length_constant [OF reachable_init, of "Some ''e''"] .

text \<open>
  Claim C4. \<^verbatim>\<open>reset\<close> sets the gripper position to \<open>[0, 0, 0]\<close>, opens the gripper and sets
  speed and turning to 0; the two step sizes and the two decay factors are as before the
  call. This holds from every state.
\<close>

theorem reset_frame:
  "gripper_pos (reset s) = [0, 0, 0] \<and> gripper_open (reset s) \<and>
   speed (reset s) = 0 \<and> turning (reset s) = 0 \<and>
   wheel_step (reset s) = wheel_step s \<and> gripper_step (reset s) = gripper_step s \<and>
   speed_decay (reset s) = speed_decay s \<and> turning_decay (reset s) = turning_decay s"
  by (simp add: reset_def)

text \<open>
  Claim C5. In a reachable state (where the decay factors are the constructor's 0.9 and
  0.5), a call with no key multiplies speed and turning by their decay factors. A nonzero
  speed (turning) stays nonzero, keeps its sign and strictly shrinks in magnitude, after one
  such call, after any number of them, and at each further one. Whatever the key, a nonzero
  speed becomes 0 in one call only under \<^verbatim>\<open>w\<close> or \<^verbatim>\<open>s\<close>, a nonzero turning only under \<^verbatim>\<open>a\<close>
  or \<^verbatim>\<open>d\<close>: the keys that carry the zero-crossing logic.
\<close>

theorem no_key_decay:
  assumes "reachable s"
  shows "(let s1 = state_after (get_agent_actions None agent_type s)
          in speed s1 = speed s * speed_decay s \<and> turning s1 = turning s * turning_decay s \<and>
             (speed s \<noteq> 0 \<longrightarrow>
                speed s1 \<noteq> 0 \<and> sgn (speed s1) = sgn (speed s) \<and> \<bar>speed s1\<bar> < \<bar>speed s\<bar>) \<and>
             (turning s \<noteq> 0 \<longrightarrow>
                turning s1 \<noteq> 0 \<and> sgn (turning s1) = sgn (turning s) \<and> \<bar>turning s1\<bar> < \<bar>turning s\<bar>)) \<and>
         (let sn = run_calls (map (Pair None) agent_types) s
          in (speed s \<noteq> 0 \<longrightarrow>
                speed sn \<noteq> 0 \<and> sgn (speed sn) = sgn (speed s) \<and>
                (agent_types \<noteq> [] \<longrightarrow> \<bar>speed sn\<bar> < \<bar>speed s\<bar>) \<and>
                \<bar>speed (state_after (get_agent_actions None agent_type sn))\<bar> < \<bar>speed sn\<bar>) \<and>
             (turning s \<noteq> 0 \<longrightarrow>
                turning sn \<noteq> 0 \<and> sgn (turning sn) = sgn (turning s) \<and>
                (agent_types \<noteq> [] \<longrightarrow> \<bar>turning sn\<bar> < \<bar>turning s\<bar>) \<and>
                \<bar>turning (state_after (get_agent_actions None agent_type sn))\<bar> < \<bar>turning sn\<bar>)) \<and>
         (speed s \<noteq> 0 \<and> speed (state_after (get_agent_actions key agent_type s)) = 0
            \<longrightarrow> key = Some ''w'' \<or> key = Some ''s'') \<and>
         (turning s \<noteq> 0 \<and> turning (state_after (get_agent_actions key' agent_type s)) = 0
            \<longrightarrow> key' = Some ''a'' \<or> key' = Some ''d'')"
proof -
  from reachable_inv [OF assms]
  have sd: "speed_decay s = 9 / 10" and td: "turning_decay s = 1 / 2" by simp_all
  have one: "speed (state_after (get_agent_actions None agent_type s)) = speed s * (9 / 10)"
      "turning (state_after (get_agent_actions None agent_type s)) = turning s * (1 / 2)"
    by (simp_all add: speed_after turning_after sd td)
  have many: "speed (run_calls (map (Pair None) agent_types) s) = speed s * (9 / 10) ^ length agent_types"
      "turning (run_calls (map (Pair None) agent_types) s) = turning s * (1 / 2) ^ length agent_types"
    using run_no_key [of agent_types s] by (simp_all add: sd td)
  have p1: "speed s \<noteq> 0 \<Longrightarrow> speed s * (9 / 10) \<noteq> 0 \<and> sgn (speed s * (9 / 10)) = sgn (speed s) \<and>
              \<bar>speed s * (9 / 10)\<bar> < \<bar>speed s\<bar>"
    using shrink [of "speed s" "9 / 10"] by simp
  have p2: "turning s \<noteq> 0 \<Longrightarrow> turning s * (1 / 2) \<noteq> 0 \<and> sgn (turning s * (1 / 2)) = sgn (turning s) \<and>
              \<bar>turning s * (1 / 2)\<bar> < \<bar>turning s\<bar>"
    using shrink [of "turning s" "1 / 2"] by simp
  have p3: "speed s \<noteq> 0 \<Longrightarrow> speed s * (9 / 10) ^ n \<noteq> 0 \<and> sgn (speed s * (9 / 10) ^ n) = sgn (speed s) \<and>
              (n \<noteq> 0 \<longrightarrow> \<bar>speed s * (9 / 10) ^ n\<bar> < \<bar>speed s\<bar>)" for n
    using shrink_pow [of "speed s" "9 / 10" n] by simp
  have p4: "turning s \<noteq> 0 \<Longrightarrow> turning s * (1 / 2) ^ n \<noteq> 0 \<and> sgn (turning s * (1 / 2) ^ n) = sgn (turning s) \<and>
              (n \<noteq> 0 \<longrightarrow> \<bar>turning s * (1 / 2) ^ n\<bar> < \<bar>turning s\<bar>)" for n
    using shrink_pow [of "turning s" "1 / 2" n] by simp
  have nx: "x \<noteq> 0 \<Longrightarrow> \<bar>x * (9 / 10)\<bar> < \<bar>x\<bar> \<and> \<bar>x * (1 / 2)\<bar> < \<bar>x\<bar>" for x :: rat
    using shrink(3) [of x "9 / 10"] shrink(3) [of x "1 / 2"] by simp
  have rn: "reachable (run_calls (map (Pair None) agent_types) s)"
    using assms by (rule run_calls_reachable)
  from reachable_inv [OF rn]
  have sdn: "speed_decay (run_calls (map (Pair None) agent_types) s) = 9 / 10"
    and tdn: "turning_decay (run_calls (map (Pair None) agent_types) s) = 1 / 2" by simp_all
  have nxt: "speed (state_after (get_agent_actions None agent_type (run_calls (map (Pair None) agent_types) s)))
               = speed (run_calls (map (Pair None) agent_types) s) * (9 / 10)"
       "turning (state_after (get_agent_actions None agent_type (run_calls (map (Pair None) agent_types) s)))
               = turning (run_calls (map (Pair None) agent_types) s) * (1 / 2)"
    by (simp_all add: speed_after turning_after sdn tdn)
  have k1: "speed s \<noteq> 0 \<and> speed (state_after (get_agent_actions key agent_type s)) = 0
              \<longrightarrow> key = Some ''w'' \<or> key = Some ''s''"
    by (simp add: speed_after sd)
  have k2: "turning s \<noteq> 0 \<and> turning (state_after (get_agent_actions key' agent_type s)) = 0
              \<longrightarrow> key' = Some ''a'' \<or> key' = Some ''d''"
    by (simp add: turning_after td)
  have a: "(let s1 = state_after (get_agent_actions None agent_type s)
          in speed s1 = speed s * speed_decay s \<and> turning s1 = turning s * turning_decay s \<and>
             (speed s \<noteq> 0 \<longrightarrow>
                speed s1 \<noteq> 0 \<and> sgn (speed s1) = sgn (speed s) \<and> \<bar>speed s1\<bar> < \<bar>speed s\<bar>) \<and>
             (turning s \<noteq> 0 \<longrightarrow>
                turning s1 \<noteq> 0 \<and> sgn (turning s1) = sgn (turning s) \<and> \<bar>turning s1\<bar> < \<bar>turning s\<bar>))"
    unfolding Let_def one using p1 p2 by (simp add: sd td)
  have b: "(let sn = run_calls (map (Pair None) agent_types) s
          in (speed s \<noteq> 0 \<longrightarrow>
                speed sn \<noteq> 0 \<and> sgn (speed sn) = sgn (speed s) \<and>
                (agent_types \<noteq> [] \<longrightarrow> \<bar>speed sn\<bar> < \<bar>speed s\<bar>) \<and>
                \<bar>speed (state_after (get_agent_actions None agent_type sn))\<bar> < \<bar>speed sn\<bar>) \<and>
             (turning s \<noteq> 0 \<longrightarrow>
                turning sn \<noteq> 0 \<and> sgn (turning sn) = sgn (turning s) \<and>
                (agent_types \<noteq> [] \<longrightarrow> \<bar>turning sn\<bar> < \<bar>turning s\<bar>) \<and>
                \<bar>turning (state_after (get_agent_actions None agent_type sn))\<bar> < \<bar>turning sn\<bar>))"
    unfolding Let_def nxt using p3 [of "length agent_types"] p4 [of "length agent_types"] nx
    by (simp add: many)
  from a b k1 k2 show ?thesis by blast
qed

theorem no_key_decay_witness:
  "(let s = run_calls [(Some ''w'', ''turtlebot''), (Some ''d'', ''turtlebot'')] init;
        s1 = state_after (get_agent_actions None ''turtlebot'' s);
        sn = run_calls (map (Pair None) [''turtlebot'', ''youbot_noplugin'']) s
    in reachable s \<and> speed s = 0.45 \<and> turning s = 0.5 \<and>
       speed s1 = 0.405 \<and> turning s1 = 0.25 \<and>
       sgn (speed s1) = sgn (speed s) \<and> \<bar>speed s1\<bar> < \<bar>speed s\<bar> \<and>
       sgn (turning s1) = sgn (turning s) \<and> \<bar>turning s1\<bar> < \<bar>turning s\<bar> \<and>
       speed sn \<noteq> 0 \<and> \<bar>speed sn\<bar> < \<bar>speed s\<bar> \<and> turning sn \<noteq> 0 \<and> \<bar>turning sn\<bar> < \<bar>turning s\<bar> \<and>
       speed (state_after (get_agent_actions (Some ''s'') ''turtlebot'' s)) = 0 \<and>
       turning (state_after (get_agent_actions (Some ''a'') ''turtlebot'' s)) = 0)"
proof -
  define s where "s = run_calls [(Some ''w'', ''turtlebot''), (Some ''d'', ''turtlebot'')] init"
  have r: "reachable s" unfolding s_def using reachable_init by (rule run_calls_reachable)
  have v: "speed s = 0.45" "turning s = 0.5" "speed_decay s = 0.9" "turning_decay s = 0.5"
    by (simp_all add: s_def speed_after turning_after decays_after steps_after init_def)
  have z: "speed (state_after (get_agent_actions (Some ''s'') ''turtlebot'' s)) = 0"
      "turning (state_after (get_agent_actions (Some ''a'') ''turtlebot'' s)) = 0"
    by (simp_all add: speed_after turning_after v)
  from no_key_decay [OF r, of "''turtlebot''" "[''turtlebot'', ''youbot_noplugin'']" "Some ''s''" "Some ''a''"]
  show ?thesis
    unfolding s_def [symmetric] Let_def using r z by (simp add: v)
qed

text \<open>
  Claim C6. For an agent type other than the four supported ones, the call on a reachable
  state returns the empty list, raises nothing, and logs exactly one informational line,
  which ends with the unrecognized type.
\<close>

theorem unsupported_agent_type:
  assumes "reachable s"
    and "agent_type \<notin> {''pioneer2dx_noplugin'', ''turtlebot'', ''youbot_noplugin'', ''pr2_noplugin''}"
  shows "returned (get_agent_actions key agent_type s) = Inr [] \<and>
         logged (get_agent_actions key agent_type s)
           = [Info (''agent type not supported yet: '' @ agent_type)]"
  using assms(2)
  by (simp add: returned_reachable [OF assms(1)] logged_reachable [OF assms(1)]
      convert_to_agent_action_def)

theorem unsupported_agent_type_witness:
  "returned (get_agent_actions (Some ''w'') ''icub'' init) = Inr [] \<and>
   logged (get_agent_actions (Some ''w'') ''icub'' init)
     = [Info ''agent type not supported yet: icub'']"
  using unsupported_agent_type [OF reachable_init, of "''icub''" "Some ''w''"] by simp

text \<open>
  Claim C7. The youbot action of a call on a reachable state has 13 elements; those at
  indices 7 and 8 are equal, and are 0.5 when the gripper is open at the time of the
  projection (that is, after the key of this call, where \<^verbatim>\<open>e\<close> toggles the flag) and -0.5
  otherwise.
\<close>

theorem youbot_gripper_joints:
  assumes "reachable s"
  shows "\<exists>a. returned (get_agent_actions key ''youbot_noplugin'' s) = Inr a \<and>
           length a = 13 \<and> a ! 7 = a ! 8 \<and>
           a ! 7 = (if gripper_open (state_after (get_agent_actions key ''youbot_noplugin'' s))
                    then 0.5 else - 0.5) \<and>
           gripper_open (state_after (get_agent_actions key ''youbot_noplugin'' s))
             = (if key = Some ''e'' then \<not> gripper_open s else gripper_open s)"
proof -
  have len: "length (gripper_pos (state_after (get_agent_actions key ''youbot_noplugin'' s))) = 3"
    using reachable_inv [OF reachable_call [OF assms]] by simp
  show ?thesis
    by (simp add: returned_reachable [OF assms] convert_to_agent_action_def
        to_youbot_action_ok [OF len] gripper_open_after)
qed

theorem youbot_gripper_joints_witness:
  "\<exists>a. returned (get_agent_actions (Some ''e'') ''youbot_noplugin'' init) = Inr a \<and>
        length a = 13 \<and> a ! 7 = a ! 8 \<and> a ! 7 = - 0.5"
proof -
  from youbot_gripper_joints [OF reachable_init, of "Some ''e''"]
  obtain a where a: "returned (get_agent_actions (Some ''e'') ''youbot_noplugin'' init) = Inr a"
      "length a = 13" "a ! 7 = a ! 8"
      "a ! 7 = (if gripper_open (state_after (get_agent_actions (Some ''e'') ''youbot_noplugin'' init))
                then 0.5 else - 0.5)"
      "gripper_open (state_after (get_agent_actions (Some ''e'') ''youbot_noplugin'' init))
         = (\<not> gripper_open init)"
    by auto
  have "gripper_open init" by (simp add: init_def)
  with a(4,5) have "a ! 7 = - 0.5" by simp
  with a(1-3) show ?thesis by blast
qed

text \<open>
  Claim C8. A call that samples \<^verbatim>\<open>+\<close> multiplies both step sizes by 1.5. The scaled steps
  stay through any later calls whose keys are neither \<^verbatim>\<open>+\<close> nor \<^verbatim>\<open>-\<close>, and the wheel keys
  (\<^verbatim>\<open>w s a d\<close>) and gripper keys (\<^verbatim>\<open>i k j l\<close>) pressed then add or subtract the scaled
  step. A second \<^verbatim>\<open>+\<close> right after the first gives the original step times 1.5 times 1.5.
\<close>

theorem plus_scales_steps:
  assumes "reachable s" and "\<forall>c \<in> set cs. fst c \<noteq> Some ''+'' \<and> fst c \<noteq> Some ''-''"
  shows "(let s1 = state_after (get_agent_actions (Some ''+'') agent_type s);
              s2 = run_calls cs s1;
              after = (\<lambda>key. state_after (get_agent_actions (Some key) agent_type' s2))
          in wheel_step s1 = wheel_step s * 1.5 \<and> gripper_step s1 = gripper_step s * 1.5 \<and>
             wheel_step s2 = wheel_step s * 1.5 \<and> gripper_step s2 = gripper_step s * 1.5 \<and>
             speed (after ''w'') = (if speed s2 * speed_decay s2 < - 0.01 then 0
                                    else speed s2 * speed_decay s2 + wheel_step s * 1.5) \<and>
             speed (after ''s'') = (if speed s2 * speed_decay s2 > 0.01 then 0
                                    else speed s2 * speed_decay s2 - wheel_step s * 1.5) \<and>
             turning (after ''a'') = (if turning s2 * turning_decay s2 > 0.01 then 0
                                      else turning s2 * turning_decay s2 - wheel_step s * 1.5) \<and>
             turning (after ''d'') = (if turning s2 * turning_decay s2 < - 0.01 then 0
                                      else turning s2 * turning_decay s2 + wheel_step s * 1.5) \<and>
             gripper_pos (after ''i'') ! 0 = gripper_pos s2 ! 0 - gripper_step s * 1.5 \<and>
             gripper_pos (after ''k'') ! 0 = gripper_pos s2 ! 0 + gripper_step s * 1.5 \<and>
             gripper_pos (after ''j'') ! 1 = gripper_pos s2 ! 1 - gripper_step s * 1.5 \<and>
             gripper_pos (after ''l'') ! 1 = gripper_pos s2 ! 1 + gripper_step s * 1.5 \<and>
             wheel_step (state_after (get_agent_actions (Some ''+'') agent_type' s1))
               = wheel_step s * 1.5 * 1.5 \<and>
             gripper_step (state_after (get_agent_actions (Some ''+'') agent_type' s1))
               = gripper_step s * 1.5 * 1.5)"
proof -
  define s1 where "s1 = state_after (get_agent_actions (Some ''+'') agent_type s)"
  define s2 where "s2 = run_calls cs s1"
  have s1: "wheel_step s1 = wheel_step s * 1.5" "gripper_step s1 = gripper_step s * 1.5"
    by (simp_all add: s1_def steps_after)
  have s2: "wheel_step s2 = wheel_step s * 1.5" "gripper_step s2 = gripper_step s * 1.5"
    using run_calls_steps [OF assms(2), of s1] by (simp_all add: s2_def s1)
  have "reachable s1" unfolding s1_def using assms(1) by (rule reachable_call)
  then have "reachable s2" unfolding s2_def by (rule run_calls_reachable)
  then have len: "length (gripper_pos s2) = 3" using reachable_inv by blast
  have w: "speed (state_after (get_agent_actions (Some ''w'') agent_type' s2))
             = (if speed s2 * speed_decay s2 < - 0.01 then 0
                else speed s2 * speed_decay s2 + wheel_step s * 1.5)"
     "speed (state_after (get_agent_actions (Some ''s'') agent_type' s2))
             = (if speed s2 * speed_decay s2 > 0.01 then 0
                else speed s2 * speed_decay s2 - wheel_step s * 1.5)"
    by (simp_all add: speed_after s2)
  have t: "turning (state_after (get_agent_actions (Some ''a'') agent_type' s2))
             = (if turning s2 * turning_decay s2 > 0.01 then 0
                else turning s2 * turning_decay s2 - wheel_step s * 1.5)"
     "turning (state_after (get_agent_actions (Some ''d'') agent_type' s2))
             = (if turning s2 * turning_decay s2 < - 0.01 then 0
                else turning s2 * turning_decay s2 + wheel_step s * 1.5)"
    by (simp_all add: turning_after s2)
  have g: "gripper_pos (state_after (get_agent_actions (Some ''i'') agent_type' s2)) ! 0
             = gripper_pos s2 ! 0 - gripper_step s * 1.5"
     "gripper_pos (state_after (get_agent_actions (Some ''k'') agent_type' s2)) ! 0
             = gripper_pos s2 ! 0 + gripper_step s * 1.5"
     "gripper_pos (state_after (get_agent_actions (Some ''j'') agent_type' s2)) ! 1
             = gripper_pos s2 ! 1 - gripper_step s * 1.5"
     "gripper_pos (state_after (get_agent_actions (Some ''l'') agent_type' s2)) ! 1
             = gripper_pos s2 ! 1 + gripper_step s * 1.5"
    by (simp_all add: gripper_pos_after [OF len] len s2)
  have pp: "wheel_step (state_after (get_agent_actions (Some ''+'') agent_type' s1))
               = wheel_step s * 1.5 * 1.5"
      "gripper_step (state_after (get_agent_actions (Some ''+'') agent_type' s1))
               = gripper_step s * 1.5 * 1.5"
    by (simp_all add: steps_after s1)
  show ?thesis
    unfolding Let_def s1_def [symmetric] s2_def [symmetric]
    by (intro conjI) (fact s1 s2 w t g pp)+
qed

theorem plus_scales_steps_witness:
  "(let s1 = state_after (get_agent_actions (Some ''+'') ''turtlebot'' init);
        s2 = run_calls [(Some ''w'', ''turtlebot'')] s1
    in wheel_step init = 0.5 \<and> gripper_step init = 0.02 \<and>
       wheel_step s1 = 0.75 \<and> gripper_step s1 = 0.03 \<and>
       speed s2 = 0.75 \<and>
       speed (state_after (get_agent_actions (Some ''w'') ''turtlebot'' s2)) = 0.675 + 0.75 \<and>
       gripper_pos (state_after (get_agent_actions (Some ''i'') ''turtlebot'' s2)) ! 0 = - 0.03 \<and>
       wheel_step (state_after (get_agent_actions (Some ''+'') ''turtlebot'' s1)) = 1.125 \<and>
       gripper_step (state_after (get_agent_actions (Some ''+'') ''turtlebot'' s1)) = 0.045)"
proof -
  define s1 where "s1 = state_after (get_agent_actions (Some ''+'') ''turtlebot'' init)"
  define s2 where "s2 = run_calls [(Some ''w'', ''turtlebot'')] s1"
  have c: "\<forall>c \<in> set [(Some ''w'', ''turtlebot'')]. fst c \<noteq> Some ''+'' \<and> fst c \<noteq> Some ''-''"
    by simp
  have v: "speed s2 = 0.75" "speed_decay s2 = 0.9" "gripper_pos s2 ! 0 = 0"
    by (simp_all add: s2_def s1_def speed_after decays_after steps_after gripper_pos_after init_def)
  have i: "wheel_step init = 0.5" "gripper_step init = 0.02" by (simp_all add: init_def)
  from plus_scales_steps [OF reachable_init c, of "''turtlebot''" "''turtlebot''"]
  show ?thesis
    unfolding Let_def s1_def [symmetric] s2_def [symmetric] by (simp add: v i)
qed

text \<open>
  Claim C9. A call with an unsupported agent type on a reachable state returns the empty
  list and still updates the attributes exactly as a call with a supported type does: speed
  and turning are decayed and the key is applied on top. So a nonzero speed is changed by
  the call unless the key is \<^verbatim>\<open>w\<close> or \<^verbatim>\<open>s\<close> (whose effect then decides), and likewise turning
  with \<^verbatim>\<open>a\<close> and \<^verbatim>\<open>d\<close>.
\<close>

theorem unsupported_call_updates_state:
  assumes "reachable s"
    and "agent_type \<notin> {''pioneer2dx_noplugin'', ''turtlebot'', ''youbot_noplugin'', ''pr2_noplugin''}"
  shows "(let r = get_agent_actions key agent_type s; s' = state_after r
          in returned r = Inr [] \<and>
             s' = state_after (get_agent_actions key ''turtlebot'' s) \<and>
             speed s' =
               (if key = Some ''w'' then
                  (if speed s * speed_decay s < - 0.01 then 0 else speed s * speed_decay s + wheel_step s)
                else if key = Some ''s'' then
                  (if speed s * speed_decay s > 0.01 then 0 else speed s * speed_decay s - wheel_step s)
                else speed s * speed_decay s) \<and>
             turning s' =
               (if key = Some ''a'' then
                  (if turning s * turning_decay s > 0.01 then 0
                   else turning s * turning_decay s - wheel_step s)
                else if key = Some ''d'' then
                  (if turning s * turning_decay s < - 0.01 then 0
                   else turning s * turning_decay s + wheel_step s)
                else turning s * turning_decay s) \<and>
             gripper_pos s' =
               (if key = Some ''i'' then (gripper_pos s)[0 := gripper_pos s ! 0 - gripper_step s]
                else if key = Some ''k'' then (gripper_pos s)[0 := gripper_pos s ! 0 + gripper_step s]
                else if key = Some ''j'' then (gripper_pos s)[1 := gripper_pos s ! 1 - gripper_step s]
                else if key = Some ''l'' then (gripper_pos s)[1 := gripper_pos s ! 1 + gripper_step s]
                else gripper_pos s) \<and>
             gripper_open s' = (if key = Some ''e'' then \<not> gripper_open s else gripper_open s) \<and>
             wheel_step s' =
               (if key = Some ''+'' then wheel_step s * 1.5
                else if key = Some ''-'' then wheel_step s * 0.7 else wheel_step s) \<and>
             gripper_step s' =
               (if key = Some ''+'' then gripper_step s * 1.5
                else if key = Some ''-'' then gripper_step s * 0.7 else gripper_step s) \<and>
             (speed s \<noteq> 0 \<and> key \<noteq> Some ''w'' \<and> key \<noteq> Some ''s'' \<longrightarrow> speed s' \<noteq> speed s) \<and>
             (turning s \<noteq> 0 \<and> key \<noteq> Some ''a'' \<and> key \<noteq> Some ''d'' \<longrightarrow> turning s' \<noteq> turning s))"
proof -
  from reachable_inv [OF assms(1)]
  have len: "length (gripper_pos s) = 3" and sd: "speed_decay s = 9 / 10"
    and td: "turning_decay s = 1 / 2" by simp_all
  have ret: "returned (get_agent_actions key agent_type s) = Inr []"
    using assms(2) by (simp add: returned_reachable [OF assms(1)] convert_to_agent_action_def)
  have same: "state_after (get_agent_actions key agent_type s)
                = state_after (get_agent_actions key ''turtlebot'' s)"
    by (rule state_after_agent_type)
  have m1: "speed s \<noteq> 0 \<and> key \<noteq> Some ''w'' \<and> key \<noteq> Some ''s''
              \<longrightarrow> speed (state_after (get_agent_actions key agent_type s)) \<noteq> speed s"
    by (simp add: speed_after sd)
  have m2: "turning s \<noteq> 0 \<and> key \<noteq> Some ''a'' \<and> key \<noteq> Some ''d''
              \<longrightarrow> turning (state_after (get_agent_actions key agent_type s)) \<noteq> turning s"
    by (simp add: turning_after td)
  show ?thesis
    unfolding Let_def
    by (intro conjI)
       (fact ret same speed_after turning_after gripper_pos_after [OF len] gripper_open_after
          steps_after m1 m2)+
qed

theorem unsupported_call_updates_state_witness:
  "(let s = run_calls [(Some ''w'', ''turtlebot'')] init;
        r = get_agent_actions None ''icub'' s
    in reachable s \<and> speed s = 0.5 \<and> returned r = Inr [] \<and>
       speed (state_after r) = 0.45 \<and> state_after r \<noteq> s)"
proof -
  define s where "s = run_calls [(Some ''w'', ''turtlebot'')] init"
  have r: "reachable s" unfolding s_def using reachable_init by (rule run_calls_reachable)
  have v: "speed s = 0.5" "speed_decay s = 0.9"
    by (simp_all add: s_def speed_after decays_after init_def)
  have u: "''icub'' \<notin> {''pioneer2dx_noplugin'', ''turtlebot'', ''youbot_noplugin'', ''pr2_noplugin''}"
    by simp
  note t = unsupported_call_updates_state [OF r u, of None, unfolded Let_def]
  from t [THEN conjunct1]
  have rt: "returned (get_agent_actions None ''icub'' s) = Inr []" .
  from t [THEN conjunct2, THEN conjunct2, THEN conjunct1]
  have sp: "speed (state_after (get_agent_actions None ''icub'' s)) = 0.45"
    by (simp add: v)
  from sp v(1) have ne: "state_after (get_agent_actions None ''icub'' s) \<noteq> s" by auto
  show ?thesis
    unfolding s_def [symmetric] Let_def using r v(1) rt sp ne by simp
qed

text \<open>
  Claim C10. In every reachable state the gripper position has three components and the
  third is 0: it is 0 after construction and after \<^verbatim>\<open>reset\<close>, every call leaves it 0, and no
  projection depends on it (overwriting it with any value changes no action and no log line).
\<close>

theorem gripper_pos_third_component:
  assumes "reachable s"
  shows "length (gripper_pos s) = 3 \<and> gripper_pos s ! 2 = 0 \<and>
         gripper_pos init ! 2 = 0 \<and> gripper_pos (reset s) ! 2 = 0 \<and>
         gripper_pos (state_after (get_agent_actions key agent_type s)) ! 2 = 0 \<and>
         convert_to_agent_action agent_type (s\<lparr>gripper_pos := (gripper_pos s)[2 := v]\<rparr>)
           = convert_to_agent_action agent_type s"
  using reachable_inv [OF assms] reachable_inv [OF reachable_call [OF assms, of key agent_type]]
  by (simp add: init_def reset_def convert_ignores_third)

theorem gripper_pos_third_component_witness:
  "(let s = run_calls [(Some ''i'', ''youbot_noplugin''), (Some ''l'', ''youbot_noplugin'')] init
    in reachable s \<and> gripper_pos s = [- 0.02, 0.02, 0] \<and> gripper_pos s ! 2 = 0 \<and>
       gripper_pos (state_after (get_agent_actions (Some ''j'') ''youbot_noplugin'' s)) ! 2 = 0 \<and>
       convert_to_agent_action ''youbot_noplugin'' (s\<lparr>gripper_pos := (gripper_pos s)[2 := 1]\<rparr>)
         = convert_to_agent_action ''youbot_noplugin'' s)"
proof -
  define s where "s = run_calls [(Some ''i'', ''youbot_noplugin''), (Some ''l'', ''youbot_noplugin'')] init"
  have r: "reachable s" unfolding s_def using reachable_init by (rule run_calls_reachable)
  have g: "gripper_pos s = [- 0.02, 0.02, 0]"
    by (simp add: s_def gripper_pos_after steps_after init_def)
  from gripper_pos_third_component [OF r, of "Some ''j''" "''youbot_noplugin''" 1]
  show ?thesis
    unfolding s_def [symmetric] Let_def using r g by simp
qed

end
